theory Spec2Isabelle
  imports Main "HOL-Library.Char_ord" "HOL-Library.List_Lexorder"
begin

section \<open>CScreenkey: the active-key set and its display string\<close>

text \<open>
  A shallow embedding of \<^verbatim>\<open>src/CScreenkey.cpp\<close>. The file-scope variables of the
  program (\<^verbatim>\<open>activeKeys\<close>, \<^verbatim>\<open>specialKeyMap\<close>, \<^verbatim>\<open>quit\<close>, \<^verbatim>\<open>updated\<close>) are the fields
  of one state record that every function takes and returns. The curses screen is
  modelled by the sequence of \<^verbatim>\<open>mvprintw\<close> calls made by \<^verbatim>\<open>renderText\<close>, and the size
  that \<^verbatim>\<open>getmaxyx\<close> reports is a field of the state.
\<close>

subsection \<open>Library types\<close>

text \<open>
  \<^verbatim>\<open>std::set<std::string>\<close>: iteration visits the elements in ascending order of
  \<^verbatim>\<open>std::string::compare\<close>, which compares bytes as unsigned values and puts a proper
  prefix first. That is the order of \<^typ>\<open>char list\<close> here. The set is the list of
  its elements in iteration order; \<^verbatim>\<open>insert\<close> keeps an element that is already
  there, \<^verbatim>\<open>erase\<close> of a missing element changes nothing.
\<close>

fun set_insert :: "string \<Rightarrow> string list \<Rightarrow> string list" where
  "set_insert k [] = [k]"
| "set_insert k (x # xs) =
     (if k = x then x # xs
      else if k < x then k # x # xs
      else x # set_insert k xs)"

fun set_erase :: "string \<Rightarrow> string list \<Rightarrow> string list" where
  "set_erase k [] = []"
| "set_erase k (x # xs) = (if k = x then xs else x # set_erase k xs)"

text \<open>
  \<^verbatim>\<open>std::map<int, std::string>\<close>: \<^verbatim>\<open>count\<close> is 1 or 0; \<^verbatim>\<open>operator[]\<close> on a missing
  key inserts the key with an empty string and returns it, so reading through it can
  change the map. The map after the access is returned with the value.
\<close>

definition map_count :: "(int \<rightharpoonup> string) \<Rightarrow> int \<Rightarrow> nat" where
  "map_count m k = (case m k of None \<Rightarrow> 0 | Some v \<Rightarrow> 1)"

definition map_index :: "(int \<rightharpoonup> string) \<Rightarrow> int \<Rightarrow> string \<times> (int \<rightharpoonup> string)" where
  "map_index m k = (case m k of Some v \<Rightarrow> (v, m) | None \<Rightarrow> ([], m(k \<mapsto> [])))"

text \<open>
  Conversion of an unsigned value (\<^verbatim>\<open>size_t\<close>, \<^verbatim>\<open>KeySym\<close>) to a 32-bit \<^verbatim>\<open>int\<close>: the
  value modulo \<open>2 ^ 32\<close>, read as two's complement.
\<close>

definition int_of_unsigned :: "int \<Rightarrow> int" where
  "int_of_unsigned v = (v + 2 ^ 31) mod 2 ^ 32 - 2 ^ 31"

text \<open>
  Subtraction of two 32-bit \<^verbatim>\<open>int\<close> values. A result outside 32 bits is undefined in
  C++; the compiled program wraps around, and the model does the same.
\<close>

definition sub_int32 :: "int \<Rightarrow> int \<Rightarrow> int" where
  "sub_int32 a b = (a - b + 2 ^ 31) mod 2 ^ 32 - 2 ^ 31"

text \<open>Division of \<^verbatim>\<open>int\<close> in C++ truncates towards zero.\<close>

definition c_div :: "int \<Rightarrow> int \<Rightarrow> int" where
  "c_div a b = sgn a * sgn b * (\<bar>a\<bar> div \<bar>b\<bar>)"

text \<open>
  \<^verbatim>\<open>std::toupper\<close> in the "C" locale (the program never calls \<^verbatim>\<open>setlocale\<close>): the
  letters \<^verbatim>\<open>a\<close> to \<^verbatim>\<open>z\<close> (97 to 122) move down by 32, every other byte is kept
  (also the bytes from 128 on, which are negative as \<^verbatim>\<open>char\<close> and for which the
  C library's table lookup returns the byte itself).
\<close>

definition toupper :: "char \<Rightarrow> char" where
  "toupper c =
     (let n = (of_char c :: nat)
      in if 97 \<le> n \<and> n \<le> 122 then char_of (n - 32) else c)"

subsection \<open>Program state\<close>

record draw_call =
  row :: int
  col :: int
  fmt :: string

record state =
  activeKeys :: "string list"
  specialKeyMap :: "int \<rightharpoonup> string"
  quit :: bool
  updated :: bool
  term_width :: int
  term_height :: int
  screen :: "draw_call list"

text \<open>The state at program start: both containers empty, both flags false.\<close>

definition init_state :: "int \<Rightarrow> int \<Rightarrow> state" where
  "init_state w h =
     \<lparr>activeKeys = [], specialKeyMap = Map.empty, quit = False, updated = False,
      term_width = w, term_height = h, screen = []\<rparr>"

subsection \<open>Rendering\<close>

text \<open>
  \<^verbatim>\<open>renderText\<close> clears the screen and prints the text at
  \<^verbatim>\<open>(term_height / 2, (term_width - text_length) / 2)\<close>. The three locals are 32-bit
  \<^verbatim>\<open>int\<close>s: the length is converted from \<^verbatim>\<open>size_t\<close> and the subtraction is the 32-bit
  one. It is exact whenever the width is not negative and the text is shorter than
  \<open>2 ^ 31\<close> bytes.
\<close>

definition renderText :: "string \<Rightarrow> state \<Rightarrow> state" where
  "renderText inputText st =
     (let text_length = int_of_unsigned (int (length inputText));
          start_x = c_div (sub_int32 (term_width st) text_length) 2;
          start_y = c_div (term_height st) 2
      in st\<lparr>screen := screen st @ [\<lparr>row = start_y, col = start_x, fmt = inputText\<rparr>]\<rparr>)"

definition showPressedKey :: "string \<Rightarrow> state \<Rightarrow> state" where
  "showPressedKey combination st = renderText (map toupper combination) st"

text \<open>
  The loop of \<^verbatim>\<open>updateKeyCombination\<close> over the set, with the string built so far as
  accumulator: the separator is added when the accumulator is not empty.
\<close>

fun join_keys :: "string \<Rightarrow> string list \<Rightarrow> string" where
  "join_keys combination [] = combination"
| "join_keys combination (key # keys) =
     join_keys ((if combination \<noteq> [] then combination @ '' + '' else combination) @ key) keys"

definition updateKeyCombination :: "state \<Rightarrow> state" where
  "updateKeyCombination st =
     (let st1 = (if activeKeys st \<noteq> []
                 then showPressedKey (join_keys [] (activeKeys st)) st
                 else st)
      in st1\<lparr>updated := True\<rparr>)"

definition addSpecialKey :: "string \<Rightarrow> state \<Rightarrow> state" where
  "addSpecialKey keyStr st =
     updateKeyCombination (st\<lparr>activeKeys := set_insert keyStr (activeKeys st)\<rparr>)"

definition removeSpecialKey :: "string \<Rightarrow> state \<Rightarrow> state" where
  "removeSpecialKey keyStr st =
     updateKeyCombination (st\<lparr>activeKeys := set_erase keyStr (activeKeys st)\<rparr>)"

definition clearActiveKeys :: "state \<Rightarrow> state" where
  "clearActiveKeys st = st\<lparr>activeKeys := []\<rparr>"

subsection \<open>Key table\<close>

text \<open>
  The four keysym macros come from \<^verbatim>\<open>X11/keysym.h\<close>, which is not part of the
  sources, so their values are parameters. The assignments are made in the order of
  the source.
\<close>

record keysyms =
  XK_Page_Up :: int
  XK_Page_Down :: int
  XK_Home :: int
  XK_End :: int

definition initializeKeyMappings :: "keysyms \<Rightarrow> (int \<rightharpoonup> string) \<Rightarrow> (int \<rightharpoonup> string)" where
  "initializeKeyMappings ks m =
     m(XK_Page_Up ks \<mapsto> ''PAGE UP'',
       XK_Page_Down ks \<mapsto> ''PAGE DOWN'',
       XK_Home ks \<mapsto> ''HOME'',
       XK_End ks \<mapsto> ''END'',
       1 \<mapsto> ''MOUSE LEFT CLICK'',
       2 \<mapsto> ''MOUSE MIDDLE CLICK'',
       3 \<mapsto> ''MOUSE RIGHT CLICK'',
       4 \<mapsto> ''MOUSE SCROLL UP'',
       5 \<mapsto> ''MOUSE SCROLL DOWN'')"

subsection \<open>Linux event path\<close>

text \<open>
  What Xlib supplies: the keysym of a key code (\<^verbatim>\<open>XkbKeycodeToKeysym\<close>, the
  value of an unsigned \<^verbatim>\<open>KeySym\<close>) and the name of a keysym (\<^verbatim>\<open>XKeysymToString\<close>, a \<^verbatim>\<open>char *\<close> that is
  null when the keysym has no name: \<open>None\<close>). Assigning a null \<^verbatim>\<open>char *\<close> to a
  \<^verbatim>\<open>std::string\<close> is undefined behaviour; the model stops there with \<open>NullString\<close>.
\<close>

record xlib =
  XkbKeycodeToKeysym :: "int \<Rightarrow> int"
  XKeysymToString :: "int \<Rightarrow> string option"
  keysym_values :: keysyms

datatype crash = NullString

definition handleLinuxKeyPress :: "xlib \<Rightarrow> int \<Rightarrow> state \<Rightarrow> crash + state" where
  "handleLinuxKeyPress x detail st =
     (let keysym = XkbKeycodeToKeysym x detail
      in case (if map_count (specialKeyMap st) (int_of_unsigned keysym) \<noteq> 0
               then Inr (map_index (specialKeyMap st) (int_of_unsigned keysym))
               else (case XKeysymToString x keysym of
                       None \<Rightarrow> Inl NullString
                     | Some s \<Rightarrow> Inr (s, specialKeyMap st))) of
           Inl e \<Rightarrow> Inl e
         | Inr (keyStr, m) \<Rightarrow>
             Inr (if keyStr \<noteq> []
                  then updateKeyCombination
                         (st\<lparr>activeKeys := set_insert keyStr (activeKeys st), specialKeyMap := m\<rparr>)
                  else st\<lparr>specialKeyMap := m\<rparr>))"

definition handleLinuxKeyRelease :: "xlib \<Rightarrow> int \<Rightarrow> state \<Rightarrow> crash + state" where
  "handleLinuxKeyRelease x detail st =
     (let keysym = XkbKeycodeToKeysym x detail
      in case (if map_count (specialKeyMap st) (int_of_unsigned keysym) \<noteq> 0
               then Inr (map_index (specialKeyMap st) (int_of_unsigned keysym))
               else (case XKeysymToString x keysym of
                       None \<Rightarrow> Inl NullString
                     | Some s \<Rightarrow> Inr (s, specialKeyMap st))) of
           Inl e \<Rightarrow> Inl e
         | Inr (keyStr, m) \<Rightarrow>
             Inr (if keyStr \<noteq> []
                  then updateKeyCombination
                         (st\<lparr>activeKeys := set_erase keyStr (activeKeys st), specialKeyMap := m\<rparr>)
                  else st\<lparr>specialKeyMap := m\<rparr>))"

definition handleLinuxButtonPress :: "int \<Rightarrow> state \<Rightarrow> state" where
  "handleLinuxButtonPress detail st =
     (case (if map_count (specialKeyMap st) detail \<noteq> 0
            then map_index (specialKeyMap st) detail
            else (''Unknown Mouse Button'', specialKeyMap st)) of
        (buttonStr, m) \<Rightarrow>
          if buttonStr \<noteq> []
          then updateKeyCombination
                 (st\<lparr>activeKeys := set_insert buttonStr (activeKeys st), specialKeyMap := m\<rparr>)
          else st\<lparr>specialKeyMap := m\<rparr>)"

definition handleLinuxButtonRelease :: "int \<Rightarrow> state \<Rightarrow> state" where
  "handleLinuxButtonRelease detail st =
     (case (if map_count (specialKeyMap st) detail \<noteq> 0
            then map_index (specialKeyMap st) detail
            else (''Unknown Mouse Button'', specialKeyMap st)) of
        (buttonStr, m) \<Rightarrow>
          if buttonStr \<noteq> []
          then updateKeyCombination
                 (st\<lparr>activeKeys := set_erase buttonStr (activeKeys st), specialKeyMap := m\<rparr>)
          else st\<lparr>specialKeyMap := m\<rparr>)"

text \<open>
  One event as \<^verbatim>\<open>XNextEvent\<close> returns it. An XInput2 event of the four selected kinds
  carries \<^verbatim>\<open>xide->detail\<close>; \<open>XI_Other\<close> is any other XInput2 event and \<open>NotGeneric\<close> an
  event that fails the test on \<^verbatim>\<open>GenericEvent\<close> and the extension opcode.
\<close>

datatype xevent =
  XI_KeyPress int
| XI_KeyRelease int
| XI_ButtonPress int
| XI_ButtonRelease int
| XI_Other
| NotGeneric

fun dispatch :: "xlib \<Rightarrow> xevent \<Rightarrow> state \<Rightarrow> crash + state" where
  "dispatch x (XI_KeyPress d) st = handleLinuxKeyPress x d st"
| "dispatch x (XI_KeyRelease d) st = handleLinuxKeyRelease x d st"
| "dispatch x (XI_ButtonPress d) st = Inr (handleLinuxButtonPress d st)"
| "dispatch x (XI_ButtonRelease d) st = Inr (handleLinuxButtonRelease d st)"
| "dispatch x XI_Other st = Inr st"
| "dispatch x NotGeneric st = Inr st"

text \<open>
  The loop \<^verbatim>\<open>while (!quit)\<close> of \<^verbatim>\<open>startLinuxScreenKey\<close>, run on the events that arrive.
\<close>

fun eventLoop :: "xlib \<Rightarrow> xevent list \<Rightarrow> state \<Rightarrow> crash + state" where
  "eventLoop x [] st = Inr st"
| "eventLoop x (e # es) st =
     (if quit st then Inr st
      else case dispatch x e st of
             Inl c \<Rightarrow> Inl c
           | Inr st1 \<Rightarrow> eventLoop x es st1)"

text \<open>
  \<^verbatim>\<open>startLinuxScreenKey\<close>: \<open>display_ok\<close> says whether \<^verbatim>\<open>XOpenDisplay\<close> returned a
  display, \<open>ext_ok\<close> whether \<^verbatim>\<open>XQueryExtension\<close> found the input extension.
\<close>

definition startLinuxScreenKey ::
    "xlib \<Rightarrow> bool \<Rightarrow> bool \<Rightarrow> xevent list \<Rightarrow> state \<Rightarrow> crash + state" where
  "startLinuxScreenKey x display_ok ext_ok events st =
     (if \<not> display_ok then Inr st
      else
        let st1 = st\<lparr>specialKeyMap := initializeKeyMappings (keysym_values x) (specialKeyMap st)\<rparr>
        in if \<not> ext_ok then Inr st1 else eventLoop x events st1)"

subsection \<open>Windows mouse hook\<close>

text \<open>
  The message identifiers compared with \<^verbatim>\<open>wParam\<close> are distinct constants of
  \<^verbatim>\<open>windows.h\<close>; \<open>WM_OTHER\<close> is any other message. \<open>hc_action\<close> is the test
  \<^verbatim>\<open>nCode == HC_ACTION\<close> and \<open>wheel_delta\<close> the value of
  \<^verbatim>\<open>GET_WHEEL_DELTA_WPARAM(mouseStruct->mouseData)\<close>.
\<close>

datatype wparam =
  WM_LBUTTONDOWN | WM_LBUTTONUP
| WM_MBUTTONDOWN | WM_MBUTTONUP
| WM_RBUTTONDOWN | WM_RBUTTONUP
| WM_MOUSEWHEEL | WM_OTHER

definition LowLevelMouseProc :: "bool \<Rightarrow> wparam \<Rightarrow> int \<Rightarrow> state \<Rightarrow> state" where
  "LowLevelMouseProc hc_action wParam wheel_delta st =
     (if hc_action then
        let buttonStr =
              (if wParam = WM_LBUTTONDOWN then ''MOUSE LEFT CLICK''
               else if wParam = WM_MBUTTONDOWN then ''MOUSE MIDDLE CLICK''
               else if wParam = WM_RBUTTONDOWN then ''MOUSE RIGHT CLICK''
               else if wParam = WM_MOUSEWHEEL
                 then (if wheel_delta > 0 then ''MOUSE SCROLL UP'' else ''MOUSE SCROLL DOWN'')
               else []);
            st1 = (if buttonStr \<noteq> []
                   then updateKeyCombination
                          (st\<lparr>activeKeys := set_insert buttonStr (activeKeys st)\<rparr>)
                   else st);
            st2 = (if wParam = WM_LBUTTONUP \<or> wParam = WM_MBUTTONUP \<or> wParam = WM_RBUTTONUP
                   then updateKeyCombination
                          (st1\<lparr>activeKeys := set_erase buttonStr (activeKeys st1)\<rparr>)
                   else st1)
        in st2
      else st)"

subsection \<open>Sample platform values\<close>

text \<open>
  Concrete values on which the theorems below are evaluated: the four keysyms as
  \<^verbatim>\<open>X11/keysymdef.h\<close> numbers them, and an Xlib for which key code 38 carries the
  keysym \<^verbatim>\<open>a\<close> (97), key code 112 carries Page Up, and every other key code carries
  \<^verbatim>\<open>NoSymbol\<close> (0), which has no name.
\<close>

definition x11_keysyms :: keysyms where
  "x11_keysyms =
     \<lparr>XK_Page_Up = 0xff55, XK_Page_Down = 0xff56, XK_Home = 0xff50, XK_End = 0xff57\<rparr>"

definition xlib_sample :: xlib where
  "xlib_sample =
     \<lparr>XkbKeycodeToKeysym = (\<lambda>d. if d = 38 then 97 else if d = 112 then 0xff55 else 0),
      XKeysymToString =
        (\<lambda>k. if k = 97 then Some ''a'' else if k = 0xff55 then Some ''Prior'' else None),
      keysym_values = x11_keysyms\<rparr>"

subsection \<open>The joined string of the specification\<close>

text \<open>
  The specification describes the combination string as the names joined by
  \<^verbatim>\<open>" + "\<close>. This function follows those words, and is compared below with the
  loop \<open>join_keys\<close> of the program.
\<close>

fun join_with_plus :: "string list \<Rightarrow> string" where
  "join_with_plus [] = []"
| "join_with_plus [k] = k"
| "join_with_plus (k # k' # ks) = k @ '' + '' @ join_with_plus (k' # ks)"

section \<open>Properties\<close>

subsection \<open>Facts about the containers\<close>

lemma set_erase_absent: "k \<notin> set xs \<Longrightarrow> set_erase k xs = xs"
  by (induction xs) auto

lemma set_set_insert: "set (set_insert k xs) = insert k (set xs)"
  by (induction xs) auto

lemma strict_sorted_set_insert:
  "sorted_wrt (<) xs \<Longrightarrow> sorted_wrt (<) (set_insert k xs)"
  by (induction xs) (auto simp: set_set_insert)

lemma fold_set_insert_set: "set (fold set_insert names acc) = set names \<union> set acc"
  by (induction names arbitrary: acc) (auto simp: set_set_insert)

lemma fold_set_insert_sorted:
  "sorted_wrt (<) acc \<Longrightarrow> sorted_wrt (<) (fold set_insert names acc)"
  by (induction names arbitrary: acc) (auto simp: strict_sorted_set_insert)

lemma fold_set_insert_sorted_list:
  "fold set_insert names [] = sorted_list_of_set (set names)"
proof -
  have "sorted_wrt (<) (fold set_insert names [])"
    by (rule fold_set_insert_sorted) simp
  then have "sorted (fold set_insert names [])" and "distinct (fold set_insert names [])"
    by (simp_all add: strict_sorted_iff)
  then have "sorted_list_of_set (set (fold set_insert names [])) = fold set_insert names []"
    by (rule sorted_list_of_set.idem_if_sorted_distinct)
  then show ?thesis by (simp add: fold_set_insert_set)
qed

lemma join_keys_nonempty:
  "acc \<noteq> [] \<Longrightarrow> join_keys acc keys = acc @ concat (map (\<lambda>k. '' + '' @ k) keys)"
  by (induction keys arbitrary: acc) auto

lemma join_with_plus_Cons:
  "join_with_plus (k # ks) = k @ concat (map (\<lambda>k. '' + '' @ k) ks)"
  by (induction ks arbitrary: k) auto

lemma join_keys_join_with_plus:
  "[] \<notin> set keys \<Longrightarrow> join_keys [] keys = join_with_plus keys"
proof (cases keys)
  case Nil
  then show ?thesis by simp
next
  case (Cons k ks)
  assume "[] \<notin> set keys"
  with Cons have "k \<noteq> []" by auto
  then show ?thesis
    using Cons by (simp add: join_keys_nonempty join_with_plus_Cons)
qed

lemma activeKeys_updateKeyCombination [simp]:
  "activeKeys (updateKeyCombination st) = activeKeys st"
  by (simp add: updateKeyCombination_def showPressedKey_def renderText_def Let_def)

lemma activeKeys_addSpecialKey [simp]:
  "activeKeys (addSpecialKey k st) = set_insert k (activeKeys st)"
  by (simp add: addSpecialKey_def)

lemma activeKeys_fold_addSpecialKey:
  "activeKeys (fold addSpecialKey names st) = fold set_insert names (activeKeys st)"
  by (induction names arbitrary: st) auto

lemma toupper_idem: "toupper (toupper c) = toupper c"
  by (auto simp: toupper_def Let_def)

lemma screen_renderText:
  "map fmt (screen (renderText t st)) = map fmt (screen st) @ [t]"
  by (simp add: renderText_def Let_def)

lemma screen_updateKeyCombination:
  "screen (updateKeyCombination st) =
     (if activeKeys st = [] then screen st
      else screen (showPressedKey (join_keys [] (activeKeys st)) st))"
  by (simp add: updateKeyCombination_def Let_def)

lemma set_insert_not_Nil: "set_insert k xs \<noteq> []"
  by (cases xs) auto

lemma updateKeyCombination_nonempty:
  "activeKeys st \<noteq> [] \<Longrightarrow>
     updateKeyCombination st
       = (showPressedKey (join_keys [] (activeKeys st)) st)\<lparr>updated := True\<rparr>"
  by (simp add: updateKeyCombination_def)

lemma last_drawn_addSpecialKey:
  "fmt (last (screen (addSpecialKey k st)))
     = map toupper (join_keys [] (activeKeys (addSpecialKey k st)))"
  by (simp add: addSpecialKey_def updateKeyCombination_def showPressedKey_def
      renderText_def Let_def set_insert_not_Nil)

lemma last_drawn_fold_addSpecialKey:
  assumes "names \<noteq> []"
  shows "fmt (last (screen (fold addSpecialKey names st)))
           = map toupper (join_keys [] (activeKeys (fold addSpecialKey names st)))"
proof -
  from assms obtain ns n where "names = ns @ [n]"
    by (cases names rule: rev_cases) auto
  then have "fold addSpecialKey names st = addSpecialKey n (fold addSpecialKey ns st)"
    by simp
  then show ?thesis
    by (simp only: last_drawn_addSpecialKey)
qed

lemma int_of_unsigned_small: "n < 2 ^ 31 \<Longrightarrow> int_of_unsigned (int n) = int n"
proof -
  assume "n < 2 ^ 31"
  then have "int n < 2 ^ 31"
    by (metis of_nat_less_iff of_nat_numeral of_nat_power)
  then have "(int n + 2 ^ 31) mod 2 ^ 32 = int n + 2 ^ 31"
    by (intro mod_pos_pos_trivial) simp_all
  then show ?thesis
    by (simp add: int_of_unsigned_def)
qed

lemma sub_int32_exact:
  "- (2 ^ 31) \<le> a - b \<Longrightarrow> a - b < 2 ^ 31 \<Longrightarrow> sub_int32 a b = a - b"
proof -
  assume "- (2 ^ 31) \<le> a - b" and "a - b < 2 ^ 31"
  then have "(a - b + 2 ^ 31) mod 2 ^ 32 = a - b + 2 ^ 31"
    by (intro mod_pos_pos_trivial) simp_all
  then show ?thesis
    by (simp add: sub_int32_def)
qed

lemma renderText_wraps:
  "col (last (screen (renderText ''AA'' (init_state (- 2147483648) 24)))) = 1073741823"
  by code_simp

lemma c_div_2_nonneg: "0 \<le> c_div a 2 \<longleftrightarrow> - 1 \<le> a"
proof (cases "0 \<le> a")
  case True
  then show ?thesis by (simp add: c_div_def sgn_if)
next
  case False
  then have "a = - 1 \<or> a \<le> - 2" by arith
  then show ?thesis
  proof
    assume "a = - 1"
    then show ?thesis by (simp add: c_div_def)
  next
    assume "a \<le> - 2"
    then have "1 \<le> \<bar>a\<bar> div 2" by arith
    with \<open>a \<le> - 2\<close> show ?thesis by (simp add: c_div_def sgn_if)
  qed
qed

lemma specialKeyMap_updateKeyCombination [simp]:
  "specialKeyMap (updateKeyCombination st) = specialKeyMap st"
  by (simp add: updateKeyCombination_def showPressedKey_def renderText_def Let_def)

lemma set_insert_idem: "set_insert k (set_insert k xs) = set_insert k xs"
  by (induction xs) auto

lemma set_erase_set_insert: "k \<notin> set xs \<Longrightarrow> set_erase k (set_insert k xs) = xs"
  by (induction xs) auto

lemma set_set_erase: "distinct xs \<Longrightarrow> set (set_erase k xs) = set xs - {k}"
  by (induction xs) auto

lemma count_in_distinct:
  "distinct xs \<Longrightarrow> k \<in> set xs \<Longrightarrow> length (filter (\<lambda>x. x = k) xs) = 1"
  by (induction xs) (auto simp: filter_empty_conv)

lemma length_set_insert_new: "k \<notin> set xs \<Longrightarrow> length (set_insert k xs) = Suc (length xs)"
  by (induction xs) auto

lemma handleLinuxButtonPress_unmapped:
  "specialKeyMap st b = None \<Longrightarrow>
     handleLinuxButtonPress b st =
       updateKeyCombination (st\<lparr>activeKeys := set_insert ''Unknown Mouse Button'' (activeKeys st)\<rparr>)"
  by (simp add: handleLinuxButtonPress_def map_count_def)

lemma handleLinuxButtonRelease_unmapped:
  "specialKeyMap st b = None \<Longrightarrow>
     handleLinuxButtonRelease b st =
       updateKeyCombination (st\<lparr>activeKeys := set_erase ''Unknown Mouse Button'' (activeKeys st)\<rparr>)"
  by (simp add: handleLinuxButtonRelease_def map_count_def)

lemma handleLinuxKeyPress_keeps_map:
  "handleLinuxKeyPress x d st = Inr st' \<Longrightarrow> specialKeyMap st' = specialKeyMap st"
  by (auto simp: handleLinuxKeyPress_def map_count_def map_index_def Let_def
      split: option.splits if_splits)

lemma handleLinuxKeyRelease_keeps_map:
  "handleLinuxKeyRelease x d st = Inr st' \<Longrightarrow> specialKeyMap st' = specialKeyMap st"
  by (auto simp: handleLinuxKeyRelease_def map_count_def map_index_def Let_def
      split: option.splits if_splits)

lemma handleLinuxButtonPress_keeps_map:
  "specialKeyMap (handleLinuxButtonPress d st) = specialKeyMap st"
  by (auto simp: handleLinuxButtonPress_def map_count_def map_index_def
      split: option.splits)

lemma handleLinuxButtonRelease_keeps_map:
  "specialKeyMap (handleLinuxButtonRelease d st) = specialKeyMap st"
  by (auto simp: handleLinuxButtonRelease_def map_count_def map_index_def
      split: option.splits)

lemma dispatch_keeps_map:
  "dispatch x e st = Inr st' \<Longrightarrow> specialKeyMap st' = specialKeyMap st"
  by (cases e)
     (auto simp: handleLinuxButtonPress_keeps_map handleLinuxButtonRelease_keeps_map
       dest: handleLinuxKeyPress_keeps_map handleLinuxKeyRelease_keeps_map)

lemma eventLoop_keeps_map:
  "eventLoop x es st = Inr st' \<Longrightarrow> specialKeyMap st' = specialKeyMap st"
proof (induction es arbitrary: st)
  case Nil
  then show ?case by simp
next
  case (Cons e es)
  show ?case
  proof (cases "quit st")
    case True
    with Cons.prems show ?thesis by simp
  next
    case False
    with Cons.prems obtain st1 where d: "dispatch x e st = Inr st1"
      and l: "eventLoop x es st1 = Inr st'"
      by (auto split: sum.splits)
    from Cons.IH [OF l] dispatch_keeps_map [OF d] show ?thesis by simp
  qed
qed

lemma initializeKeyMappings_dom:
  "dom (initializeKeyMappings ks m) =
     dom m \<union> {XK_Page_Up ks, XK_Page_Down ks, XK_Home ks, XK_End ks, 1, 2, 3, 4, 5}"
  by (auto simp: initializeKeyMappings_def)

lemma initializeKeyMappings_nonempty:
  "initializeKeyMappings ks Map.empty k = Some v \<Longrightarrow> v \<noteq> []"
  by (auto simp: initializeKeyMappings_def split: if_splits)

lemma initializeKeyMappings_entries:
  assumes "distinct [XK_Page_Up ks, XK_Page_Down ks, XK_Home ks, XK_End ks, 1, 2, 3, 4, 5]"
  shows "initializeKeyMappings ks m (XK_Page_Up ks) = Some ''PAGE UP''"
    and "initializeKeyMappings ks m (XK_Page_Down ks) = Some ''PAGE DOWN''"
    and "initializeKeyMappings ks m (XK_Home ks) = Some ''HOME''"
    and "initializeKeyMappings ks m (XK_End ks) = Some ''END''"
    and "initializeKeyMappings ks m 1 = Some ''MOUSE LEFT CLICK''"
    and "initializeKeyMappings ks m 2 = Some ''MOUSE MIDDLE CLICK''"
    and "initializeKeyMappings ks m 3 = Some ''MOUSE RIGHT CLICK''"
    and "initializeKeyMappings ks m 4 = Some ''MOUSE SCROLL UP''"
    and "initializeKeyMappings ks m 5 = Some ''MOUSE SCROLL DOWN''"
  using assms by (auto simp: initializeKeyMappings_def)

lemma key_empty_name_noop:
  assumes "specialKeyMap st (int_of_unsigned (XkbKeycodeToKeysym x d)) = None"
    and "XKeysymToString x (XkbKeycodeToKeysym x d) = Some []"
  shows "handleLinuxKeyPress x d st = Inr st" and "handleLinuxKeyRelease x d st = Inr st"
  using assms
  by (simp_all add: handleLinuxKeyPress_def handleLinuxKeyRelease_def map_count_def Let_def)

lemma key_null_name_crash:
  assumes "specialKeyMap st (int_of_unsigned (XkbKeycodeToKeysym x d)) = None"
    and "XKeysymToString x (XkbKeycodeToKeysym x d) = None"
  shows "handleLinuxKeyPress x d st = Inl NullString"
    and "handleLinuxKeyRelease x d st = Inl NullString"
  using assms
  by (simp_all add: handleLinuxKeyPress_def handleLinuxKeyRelease_def map_count_def Let_def)

text \<open>
  C6: a release of a name that is not in the active set leaves the set as it was (and
  the call returns a state: there is no error branch).
\<close>

theorem release_absent_unchanged:
  "keyStr \<notin> set (activeKeys st) \<Longrightarrow>
     activeKeys (removeSpecialKey keyStr st) = activeKeys st"
  by (simp add: removeSpecialKey_def updateKeyCombination_def showPressedKey_def
      renderText_def Let_def set_erase_absent)

theorem release_absent_unchanged_witness:
  "''B'' \<notin> set (activeKeys (addSpecialKey ''A'' (init_state 80 24))) \<and>
   activeKeys (removeSpecialKey ''B'' (addSpecialKey ''A'' (init_state 80 24))) = [''A'']"
proof -
  have h: "''B'' \<notin> set (activeKeys (addSpecialKey ''A'' (init_state 80 24)))"
    by (simp add: addSpecialKey_def updateKeyCombination_def showPressedKey_def
        renderText_def Let_def init_state_def)
  have a: "activeKeys (addSpecialKey ''A'' (init_state 80 24)) = [''A'']"
    by (simp add: addSpecialKey_def updateKeyCombination_def showPressedKey_def
        renderText_def Let_def init_state_def)
  show ?thesis using h release_absent_unchanged [OF h] a by simp
qed

subsection \<open>The combination string\<close>

text \<open>
  On the Linux path every insertion is guarded by \<^verbatim>\<open>!keyStr.empty()\<close> or
  \<^verbatim>\<open>!buttonStr.empty()\<close>, so an active set without the empty name stays without it.
\<close>

lemma set_set_erase_subset: "set (set_erase k xs) \<subseteq> set xs"
  by (induction xs) auto

lemma dispatch_no_empty_name:
  assumes "[] \<notin> set (activeKeys st)" and "dispatch x e st = Inr st'"
  shows "[] \<notin> set (activeKeys st')"
proof -
  have er: "[] \<notin> set (set_erase k (activeKeys st))" for k
    using assms(1) set_set_erase_subset [of k "activeKeys st"] by blast
  have ins: "k \<noteq> [] \<Longrightarrow> [] \<notin> set (set_insert k (activeKeys st))" for k
    using assms(1) by (auto simp: set_set_insert)
  show ?thesis
  proof (cases e)
    case (XI_KeyPress d)
    with assms show ?thesis
      by (auto simp: handleLinuxKeyPress_def Let_def set_set_insert
          split: if_splits option.splits prod.splits)
  next
    case (XI_KeyRelease d)
    with assms(2) er assms(1) show ?thesis
      by (auto simp: handleLinuxKeyRelease_def Let_def
          split: if_splits option.splits prod.splits)
  next
    case (XI_ButtonPress d)
    with assms show ?thesis
      by (auto simp: handleLinuxButtonPress_def set_set_insert
          split: if_splits prod.splits)
  next
    case (XI_ButtonRelease d)
    with assms(2) er assms(1) show ?thesis
      by (auto simp: handleLinuxButtonRelease_def
          split: if_splits prod.splits)
  qed (use assms in auto)
qed

lemma eventLoop_no_empty_name:
  "[] \<notin> set (activeKeys st) \<Longrightarrow> eventLoop x es st = Inr st' \<Longrightarrow> [] \<notin> set (activeKeys st')"
proof (induction es arbitrary: st)
  case Nil
  then show ?case by simp
next
  case (Cons e es)
  show ?case
  proof (cases "quit st")
    case True
    with Cons.prems show ?thesis by simp
  next
    case False
    with Cons.prems obtain st1 where d: "dispatch x e st = Inr st1"
      and l: "eventLoop x es st1 = Inr st'"
      by (auto split: sum.splits)
    from dispatch_no_empty_name [OF Cons.prems(1) d] l show ?thesis
      by (rule Cons.IH)
  qed
qed

text \<open>
  C4: whatever the order in which display names (non-empty strings) are inserted into
  an empty active set, the set is iterated in ascending lexicographic order, and
  \<^verbatim>\<open>updateKeyCombination\<close> on the resulting state hands \<^verbatim>\<open>showPressedKey\<close> these names
  joined by \<^verbatim>\<open>" + "\<close>; this is also the string (upper-cased) that the last insertion
  has drawn. For the names B, A and C the string is \<^verbatim>\<open>"A + B + C"\<close>.
\<close>

theorem combination_sorted_join:
  assumes "names \<noteq> []" and "[] \<notin> set names" and "activeKeys st = []"
  shows "activeKeys (fold addSpecialKey names st) = sorted_list_of_set (set names) \<and>
         join_keys [] (activeKeys (fold addSpecialKey names st))
           = join_with_plus (sorted_list_of_set (set names)) \<and>
         updateKeyCombination (fold addSpecialKey names st)
           = (showPressedKey (join_with_plus (sorted_list_of_set (set names)))
                (fold addSpecialKey names st))\<lparr>updated := True\<rparr> \<and>
         fmt (last (screen (fold addSpecialKey names st)))
           = map toupper (join_with_plus (sorted_list_of_set (set names))) \<and>
         (set names = {''B'', ''A'', ''C''} \<longrightarrow>
           join_keys [] (activeKeys (fold addSpecialKey names st)) = ''A + B + C'' \<and>
           updateKeyCombination (fold addSpecialKey names st)
             = (showPressedKey ''A + B + C'' (fold addSpecialKey names st))\<lparr>updated := True\<rparr> \<and>
           fmt (last (screen (fold addSpecialKey names st))) = ''A + B + C'')"
proof -
  let ?S = "fold addSpecialKey names st"
  have a: "activeKeys ?S = sorted_list_of_set (set names)"
    using assms(3) by (simp add: activeKeys_fold_addSpecialKey fold_set_insert_sorted_list)
  have "[] \<notin> set (sorted_list_of_set (set names))"
    using assms(2) by simp
  then have b: "join_keys [] (activeKeys ?S) = join_with_plus (sorted_list_of_set (set names))"
    unfolding a by (rule join_keys_join_with_plus)
  have "set (activeKeys ?S) = set names"
    unfolding a by simp
  with assms(1) have ne: "activeKeys ?S \<noteq> []"
    by auto
  have u: "updateKeyCombination ?S
             = (showPressedKey (join_with_plus (sorted_list_of_set (set names))) ?S)
                 \<lparr>updated := True\<rparr>"
    using updateKeyCombination_nonempty [OF ne] unfolding b .
  have d: "fmt (last (screen ?S)) = map toupper (join_with_plus (sorted_list_of_set (set names)))"
    using last_drawn_fold_addSpecialKey [OF assms(1), of st] unfolding b .
  have c: "join_keys [] (activeKeys ?S) = ''A + B + C'' \<and>
           updateKeyCombination ?S = (showPressedKey ''A + B + C'' ?S)\<lparr>updated := True\<rparr> \<and>
           fmt (last (screen ?S)) = ''A + B + C''"
    if abc: "set names = {''B'', ''A'', ''C''}"
  proof -
    have s: "set names = set [''A'', ''B'', ''C'']"
      using abc by auto
    have "sorted_list_of_set (set names) = [''A'', ''B'', ''C'']"
      unfolding s by (rule sorted_list_of_set.idem_if_sorted_distinct) simp_all
    then have j: "join_with_plus (sorted_list_of_set (set names)) = ''A + B + C''"
      by simp
    have up: "map toupper ''A + B + C'' = ''A + B + C''"
      by code_simp
    from b u d show ?thesis
      unfolding j up by blast
  qed
  from a b u d c show ?thesis by blast
qed

theorem combination_sorted_join_witness:
  "[''B'', ''C'', ''A''] \<noteq> [] \<and> [] \<notin> set [''B'', ''C'', ''A''] \<and>
   activeKeys (init_state 80 24) = [] \<and>
   set [''B'', ''C'', ''A''] = {''B'', ''A'', ''C''} \<and>
   activeKeys (fold addSpecialKey [''B'', ''C'', ''A''] (init_state 80 24)) = [''A'', ''B'', ''C''] \<and>
   join_keys [] (activeKeys (fold addSpecialKey [''B'', ''C'', ''A''] (init_state 80 24)))
     = ''A + B + C'' \<and>
   updateKeyCombination (fold addSpecialKey [''B'', ''C'', ''A''] (init_state 80 24))
     = (showPressedKey ''A + B + C''
          (fold addSpecialKey [''B'', ''C'', ''A''] (init_state 80 24)))\<lparr>updated := True\<rparr> \<and>
   fmt (last (screen (fold addSpecialKey [''B'', ''C'', ''A''] (init_state 80 24))))
     = ''A + B + C'' \<and>
   map fmt (screen (fold addSpecialKey [''B'', ''C'', ''A''] (init_state 80 24)))
     = [''B'', ''B + C'', ''A + B + C'']"
proof -
  have h1: "[''B'', ''C'', ''A''] \<noteq> []" by simp
  have h2: "[] \<notin> set [''B'', ''C'', ''A'']" by simp
  have h3: "activeKeys (init_state 80 24) = []" by (simp add: init_state_def)
  have h4: "set [''B'', ''C'', ''A''] = {''B'', ''A'', ''C''}" by auto
  have e: "activeKeys (fold addSpecialKey [''B'', ''C'', ''A''] (init_state 80 24))
             = [''A'', ''B'', ''C'']"
    by code_simp
  have l: "map fmt (screen (fold addSpecialKey [''B'', ''C'', ''A''] (init_state 80 24)))
             = [''B'', ''B + C'', ''A + B + C'']"
    by code_simp
  note t = combination_sorted_join [OF h1 h2 h3]
  from t h4 have
    "join_keys [] (activeKeys (fold addSpecialKey [''B'', ''C'', ''A''] (init_state 80 24)))
       = ''A + B + C'' \<and>
     updateKeyCombination (fold addSpecialKey [''B'', ''C'', ''A''] (init_state 80 24))
       = (showPressedKey ''A + B + C''
            (fold addSpecialKey [''B'', ''C'', ''A''] (init_state 80 24)))\<lparr>updated := True\<rparr> \<and>
     fmt (last (screen (fold addSpecialKey [''B'', ''C'', ''A''] (init_state 80 24))))
       = ''A + B + C''"
    by blast
  with h1 h2 h3 h4 e l show ?thesis by blast
qed

subsection \<open>What reaches the renderer\<close>

text \<open>
  C5: \<^verbatim>\<open>showPressedKey\<close> hands \<^verbatim>\<open>renderText\<close> the combination string with every
  character upper-cased; upper-casing an upper-cased string returns it unchanged, so
  showing the upper-cased string is the same as showing the string.
\<close>

theorem rendered_text_uppercase:
  "map fmt (screen (showPressedKey combination st))
     = map fmt (screen st) @ [map toupper combination] \<and>
   map toupper (map toupper combination) = map toupper combination \<and>
   showPressedKey (map toupper combination) st = showPressedKey combination st"
proof -
  have idem: "map toupper (map toupper combination) = map toupper combination"
    by (induction combination) (simp_all add: toupper_idem)
  have "map fmt (screen (showPressedKey combination st))
          = map fmt (screen st) @ [map toupper combination]"
    by (simp add: showPressedKey_def screen_renderText)
  moreover have "showPressedKey (map toupper combination) st = showPressedKey combination st"
    unfolding showPressedKey_def idem ..
  ultimately show ?thesis
    using idem by blast
qed

theorem rendered_text_uppercase_witness:
  "map fmt (screen (showPressedKey ''ctrl + Shift_L + a'' (init_state 80 24)))
     = [''CTRL + SHIFT_L + A''] \<and>
   map fmt (screen (showPressedKey ''CTRL + SHIFT_L + A'' (init_state 80 24)))
     = [''CTRL + SHIFT_L + A'']"
proof -
  have u: "map toupper ''ctrl + Shift_L + a'' = ''CTRL + SHIFT_L + A''"
    by code_simp
  have s: "screen (init_state 80 24) = []"
    by (simp add: init_state_def)
  show ?thesis
    using rendered_text_uppercase [of "''ctrl + Shift_L + a''" "init_state 80 24"]
      rendered_text_uppercase [of "''CTRL + SHIFT_L + A''" "init_state 80 24"] u s
    by simp
qed

text \<open>
  C1 as stated fails: \<^verbatim>\<open>updateKeyCombination\<close> calls the renderer only under
  \<^verbatim>\<open>if (!activeKeys.empty())\<close>. After a press and the release of the same key the
  set is empty, no call was added to the screen, and the only text drawn is still
  that of the press.
\<close>

theorem empty_set_not_rendered_counterexample:
  "activeKeys (removeSpecialKey ''a'' (addSpecialKey ''a'' (init_state 80 24))) = [] \<and>
   screen (removeSpecialKey ''a'' (addSpecialKey ''a'' (init_state 80 24)))
     = screen (addSpecialKey ''a'' (init_state 80 24)) \<and>
   map fmt (screen (removeSpecialKey ''a'' (addSpecialKey ''a'' (init_state 80 24)))) = [''A'']"
  by code_simp

text \<open>
  C1, amended: a press always delivers the upper-cased combination string of the new
  set; a release delivers it when the set is not empty afterwards, and delivers
  nothing (the screen keeps what it showed) when the set is empty afterwards. Both
  set the \<^verbatim>\<open>updated\<close> flag.
\<close>

theorem render_after_apply:
  "map fmt (screen (addSpecialKey keyStr st))
     = map fmt (screen st) @ [map toupper (join_keys [] (activeKeys (addSpecialKey keyStr st)))] \<and>
   (activeKeys (removeSpecialKey keyStr st) \<noteq> [] \<longrightarrow>
      map fmt (screen (removeSpecialKey keyStr st))
        = map fmt (screen st)
            @ [map toupper (join_keys [] (activeKeys (removeSpecialKey keyStr st)))]) \<and>
   (activeKeys (removeSpecialKey keyStr st) = [] \<longrightarrow>
      screen (removeSpecialKey keyStr st) = screen st) \<and>
   updated (addSpecialKey keyStr st) \<and> updated (removeSpecialKey keyStr st)"
  by (simp add: addSpecialKey_def removeSpecialKey_def updateKeyCombination_def Let_def
      showPressedKey_def screen_renderText set_insert_not_Nil renderText_def)

theorem render_after_apply_witness:
  "map fmt (screen (addSpecialKey ''b'' (addSpecialKey ''a'' (init_state 80 24))))
     = [''A'', ''A + B''] \<and>
   activeKeys (removeSpecialKey ''a'' (addSpecialKey ''b'' (addSpecialKey ''a'' (init_state 80 24))))
     \<noteq> [] \<and>
   map fmt (screen (removeSpecialKey ''a''
      (addSpecialKey ''b'' (addSpecialKey ''a'' (init_state 80 24)))))
     = [''A'', ''A + B'', ''B''] \<and>
   activeKeys (removeSpecialKey ''a'' (addSpecialKey ''a'' (init_state 80 24))) = [] \<and>
   screen (removeSpecialKey ''a'' (addSpecialKey ''a'' (init_state 80 24)))
     = screen (addSpecialKey ''a'' (init_state 80 24))"
proof -
  have a: "map fmt (screen (addSpecialKey ''a'' (init_state 80 24))) = [''A'']"
    by code_simp
  have k2: "activeKeys (addSpecialKey ''b'' (addSpecialKey ''a'' (init_state 80 24)))
              = [''a'', ''b'']"
    by code_simp
  have k3: "activeKeys (removeSpecialKey ''a''
              (addSpecialKey ''b'' (addSpecialKey ''a'' (init_state 80 24)))) = [''b'']"
    by code_simp
  have k0: "activeKeys (removeSpecialKey ''a'' (addSpecialKey ''a'' (init_state 80 24))) = []"
    by code_simp
  have u2: "map toupper (join_keys [] [''a'', ''b'']) = ''A + B''"
    by code_simp
  have u3: "map toupper (join_keys [] [''b'']) = ''B''"
    by code_simp
  show ?thesis
    using render_after_apply [of "''b''" "addSpecialKey ''a'' (init_state 80 24)"]
      render_after_apply [of "''a''" "addSpecialKey ''b'' (addSpecialKey ''a'' (init_state 80 24))"]
      render_after_apply [of "''a''" "addSpecialKey ''a'' (init_state 80 24)"]
      a k2 k3 k0 u2 u3
    by simp
qed

subsection \<open>Centering\<close>

text \<open>
  C7 as stated fails: \<^verbatim>\<open>renderText\<close> does not clamp. A text of four bytes on a
  terminal two columns wide gets the start column \<open>(2 - 4) / 2 = -1\<close>.
\<close>

theorem start_column_negative_counterexample:
  "col (last (screen (renderText ''AAAA'' (init_state 2 24)))) = - 1"
  by code_simp

text \<open>
  C7, amended: for a text shorter than \<open>2 ^ 31\<close> bytes and a 32-bit terminal width
  from which the length can be subtracted without overflow (every width from \<open>-1\<close>
  on), the single \<^verbatim>\<open>mvprintw\<close> call gets row \<open>term_height / 2\<close> and column
  \<open>(term_width - length) / 2\<close>, both truncated towards zero. The column is
  non-negative exactly when the text is at most one byte longer than the terminal is
  wide, and the row exactly when the height is at least \<open>-1\<close>; so the empty text is
  placed at non-negative coordinates on a terminal of non-negative size, and a wider
  text gets a negative column.
\<close>

theorem centering_unclamped:
  assumes "length t < 2 ^ 31"
    and "term_width st < 2 ^ 31"
    and "- (2 ^ 31) \<le> term_width st - int (length t)"
  shows "screen (renderText t st)
           = screen st @ [\<lparr>row = c_div (term_height st) 2,
                            col = c_div (term_width st - int (length t)) 2,
                            fmt = t\<rparr>] \<and>
         (0 \<le> col (last (screen (renderText t st))) \<longleftrightarrow> int (length t) \<le> term_width st + 1) \<and>
         (0 \<le> row (last (screen (renderText t st))) \<longleftrightarrow> - 1 \<le> term_height st)"
proof -
  have "term_width st - int (length t) < 2 ^ 31"
    using assms(2) by simp
  with assms(3) have x: "sub_int32 (term_width st) (int (length t))
                           = term_width st - int (length t)"
    by (rule sub_int32_exact)
  have s: "screen (renderText t st)
           = screen st @ [\<lparr>row = c_div (term_height st) 2,
                            col = c_div (term_width st - int (length t)) 2,
                            fmt = t\<rparr>]"
    using assms(1) by (simp add: renderText_def Let_def int_of_unsigned_small x)
  have "(- 1 \<le> term_width st - int (length t)) = (int (length t) \<le> term_width st + 1)"
    by arith
  then show ?thesis
    unfolding s by (simp add: c_div_2_nonneg)
qed

theorem centering_unclamped_witness:
  "length ''AAAA'' < (2::nat) ^ 31 \<and>
   term_width (init_state 2 24) < 2 ^ 31 \<and>
   - (2 ^ 31) \<le> term_width (init_state 2 24) - int (length ''AAAA'') \<and>
   screen (renderText ''AAAA'' (init_state 2 24)) = [\<lparr>row = 12, col = - 1, fmt = ''AAAA''\<rparr>] \<and>
   \<not> 0 \<le> col (last (screen (renderText ''AAAA'' (init_state 2 24)))) \<and>
   0 \<le> col (last (screen (renderText [] (init_state 80 24)))) \<and>
   0 \<le> row (last (screen (renderText [] (init_state 80 24))))"
proof -
  have i: "term_width (init_state 2 24) = 2" "term_height (init_state 2 24) = 24"
    "screen (init_state 2 24) = []"
    by (simp_all add: init_state_def)
  have j: "term_width (init_state 80 24) = 80" "term_height (init_state 80 24) = 24"
    by (simp_all add: init_state_def)
  have h: "length ''AAAA'' < (2::nat) ^ 31" by simp
  have hw: "term_width (init_state 2 24) < 2 ^ 31" by (simp add: i)
  have hd: "- (2 ^ 31) \<le> term_width (init_state 2 24) - int (length ''AAAA'')"
    by (simp add: i)
  have h0: "length ([]::string) < (2::nat) ^ 31" by simp
  have hw0: "term_width (init_state 80 24) < 2 ^ 31" by (simp add: j)
  have hd0: "- (2 ^ 31) \<le> term_width (init_state 80 24) - int (length ([]::string))"
    by (simp add: j)
  have e: "c_div (2 - 4) 2 = - 1" "c_div 24 2 = 12"
    by (simp_all add: c_div_def)
  have wide: "screen (renderText ''AAAA'' (init_state 2 24))
                = [\<lparr>row = 12, col = - 1, fmt = ''AAAA''\<rparr>] \<and>
              \<not> 0 \<le> col (last (screen (renderText ''AAAA'' (init_state 2 24))))"
    using centering_unclamped [OF h hw hd] e i by simp
  have "(0 \<le> col (last (screen (renderText [] (init_state 80 24)))))
          = (int (length ([]::string)) \<le> term_width (init_state 80 24) + 1)"
    and "(0 \<le> row (last (screen (renderText [] (init_state 80 24)))))
          = (- 1 \<le> term_height (init_state 80 24))"
    using centering_unclamped [OF h0 hw0 hd0] by blast+
  then have blank: "0 \<le> col (last (screen (renderText [] (init_state 80 24)))) \<and>
               0 \<le> row (last (screen (renderText [] (init_state 80 24))))"
    by (simp add: j)
  from h hw hd wide blank show ?thesis by blast
qed

subsection \<open>Mouse buttons\<close>

text \<open>
  C10: on the Linux path two distinct button codes that are not in the key table both
  resolve to \<^verbatim>\<open>"Unknown Mouse Button"\<close>. Pressing both adds that one name to the
  active set (it occurs once, and the set grows by one entry when the name was not
  there), and one release of either button removes it, leaving the other names as
  they were.
\<close>

theorem unmapped_buttons_share_placeholder:
  assumes "b1 \<noteq> b2"
    and "specialKeyMap st b1 = None" and "specialKeyMap st b2 = None"
    and "sorted_wrt (<) (activeKeys st)"
    and "b = b1 \<or> b = b2"
  shows "activeKeys (handleLinuxButtonPress b2 (handleLinuxButtonPress b1 st))
           = set_insert ''Unknown Mouse Button'' (activeKeys st) \<and>
         length (filter (\<lambda>k. k = ''Unknown Mouse Button'')
                   (activeKeys (handleLinuxButtonPress b2 (handleLinuxButtonPress b1 st)))) = 1 \<and>
         ''Unknown Mouse Button'' \<notin> set (activeKeys (handleLinuxButtonRelease b
             (handleLinuxButtonPress b2 (handleLinuxButtonPress b1 st)))) \<and>
         set (activeKeys (handleLinuxButtonRelease b
             (handleLinuxButtonPress b2 (handleLinuxButtonPress b1 st))))
           = set (activeKeys st) - {''Unknown Mouse Button''} \<and>
         (''Unknown Mouse Button'' \<notin> set (activeKeys st) \<longrightarrow>
            length (activeKeys (handleLinuxButtonPress b2 (handleLinuxButtonPress b1 st)))
              = Suc (length (activeKeys st)) \<and>
            activeKeys (handleLinuxButtonRelease b
                (handleLinuxButtonPress b2 (handleLinuxButtonPress b1 st))) = activeKeys st)"
proof -
  let ?U = "''Unknown Mouse Button''"
  let ?st1 = "handleLinuxButtonPress b1 st"
  let ?st2 = "handleLinuxButtonPress b2 ?st1"
  have m1: "specialKeyMap ?st1 = specialKeyMap st"
    using assms(2) by (simp add: handleLinuxButtonPress_unmapped)
  have k1: "activeKeys ?st1 = set_insert ?U (activeKeys st)"
    using assms(2) by (simp add: handleLinuxButtonPress_unmapped)
  have none1: "specialKeyMap ?st1 b2 = None"
    using m1 assms(3) by simp
  have m2: "specialKeyMap ?st2 = specialKeyMap st"
    using none1 m1 by (simp add: handleLinuxButtonPress_unmapped)
  have k2: "activeKeys ?st2 = set_insert ?U (activeKeys st)"
    using none1 k1 by (simp add: handleLinuxButtonPress_unmapped set_insert_idem)
  have srt: "sorted_wrt (<) (set_insert ?U (activeKeys st))"
    using assms(4) by (rule strict_sorted_set_insert)
  then have dst: "distinct (set_insert ?U (activeKeys st))"
    by (simp add: strict_sorted_iff)
  have cnt: "length (filter (\<lambda>k. k = ?U) (activeKeys ?st2)) = 1"
    unfolding k2 using dst by (rule count_in_distinct) (simp add: set_set_insert)
  have noneb: "specialKeyMap ?st2 b = None"
    using m2 assms(2,3,5) by auto
  have k3: "activeKeys (handleLinuxButtonRelease b ?st2)
              = set_erase ?U (set_insert ?U (activeKeys st))"
    using noneb k2 by (simp add: handleLinuxButtonRelease_unmapped)
  have s3: "set (activeKeys (handleLinuxButtonRelease b ?st2)) = set (activeKeys st) - {?U}"
    unfolding k3 using dst by (simp add: set_set_erase set_set_insert)
  then have gone: "?U \<notin> set (activeKeys (handleLinuxButtonRelease b ?st2))"
    by simp
  have fresh: "length (activeKeys ?st2) = Suc (length (activeKeys st)) \<and>
               activeKeys (handleLinuxButtonRelease b ?st2) = activeKeys st"
    if "?U \<notin> set (activeKeys st)"
    unfolding k2 k3 using that by (simp add: length_set_insert_new set_erase_set_insert)
  from k2 cnt gone s3 fresh show ?thesis by blast
qed

theorem unmapped_buttons_share_placeholder_witness:
  "(8::int) \<noteq> 9 \<and>
   activeKeys (handleLinuxButtonPress 9 (handleLinuxButtonPress 8
      ((init_state 80 24)\<lparr>specialKeyMap := initializeKeyMappings x11_keysyms Map.empty\<rparr>)))
     = [''Unknown Mouse Button''] \<and>
   activeKeys (handleLinuxButtonRelease 8 (handleLinuxButtonPress 9 (handleLinuxButtonPress 8
      ((init_state 80 24)\<lparr>specialKeyMap := initializeKeyMappings x11_keysyms Map.empty\<rparr>))))
     = [] \<and>
   activeKeys (handleLinuxButtonRelease 9 (handleLinuxButtonPress 9 (handleLinuxButtonPress 8
      ((init_state 80 24)\<lparr>specialKeyMap := initializeKeyMappings x11_keysyms Map.empty\<rparr>))))
     = []"
proof -
  let ?st = "(init_state 80 24)\<lparr>specialKeyMap := initializeKeyMappings x11_keysyms Map.empty\<rparr>"
  have h1: "(8::int) \<noteq> 9" by simp
  have h2: "specialKeyMap ?st 8 = None"
    by (simp add: initializeKeyMappings_def x11_keysyms_def)
  have h3: "specialKeyMap ?st 9 = None"
    by (simp add: initializeKeyMappings_def x11_keysyms_def)
  have k: "activeKeys ?st = []"
    by (simp add: init_state_def)
  have h4: "sorted_wrt (<) (activeKeys ?st)"
    by (simp add: k)
  have f: "''Unknown Mouse Button'' \<notin> set (activeKeys ?st)"
    by (simp add: k)
  show ?thesis
    using unmapped_buttons_share_placeholder [OF h1 h2 h3 h4, of 8]
      unmapped_buttons_share_placeholder [OF h1 h2 h3 h4, of 9] f h1 k
    by simp
qed

text \<open>
  C3 fails on the code: on a button-up message \<^verbatim>\<open>LowLevelMouseProc\<close> erases
  \<^verbatim>\<open>buttonStr\<close>, which no branch has set for that message, so the empty string is
  erased. After button-down and the matching button-up, for each of the three
  buttons, the button's name is still in the active set.
\<close>

theorem mouse_up_keeps_button:
  "activeKeys (LowLevelMouseProc True WM_LBUTTONUP 0
      (LowLevelMouseProc True WM_LBUTTONDOWN 0 (init_state 80 24))) = [''MOUSE LEFT CLICK''] \<and>
   activeKeys (LowLevelMouseProc True WM_MBUTTONUP 0
      (LowLevelMouseProc True WM_MBUTTONDOWN 0 (init_state 80 24))) = [''MOUSE MIDDLE CLICK''] \<and>
   activeKeys (LowLevelMouseProc True WM_RBUTTONUP 0
      (LowLevelMouseProc True WM_RBUTTONDOWN 0 (init_state 80 24))) = [''MOUSE RIGHT CLICK'']"
  by code_simp

subsection \<open>Keys without a name\<close>

text \<open>
  C2 fails on the code: key code 8 has no keysym on the sample platform, so
  \<^verbatim>\<open>XKeysymToString\<close> returns a null pointer, and both key handlers assign it to a
  \<^verbatim>\<open>std::string\<close>. The run of \<^verbatim>\<open>startLinuxScreenKey\<close> on that one press, or on that one
  release, ends in the crash \<open>NullString\<close> and not in a state.
\<close>

theorem key_without_name_crashes:
  "startLinuxScreenKey xlib_sample True True [XI_KeyPress 8] (init_state 80 24) = Inl NullString \<and>
   startLinuxScreenKey xlib_sample True True [XI_KeyRelease 8] (init_state 80 24) = Inl NullString"
proof -
  have "isl (startLinuxScreenKey xlib_sample True True [XI_KeyPress 8] (init_state 80 24))"
    by code_simp
  then have p: "startLinuxScreenKey xlib_sample True True [XI_KeyPress 8] (init_state 80 24)
                  = Inl NullString"
    by (cases "startLinuxScreenKey xlib_sample True True [XI_KeyPress 8] (init_state 80 24)")
       (simp_all, metis crash.exhaust)
  have "isl (startLinuxScreenKey xlib_sample True True [XI_KeyRelease 8] (init_state 80 24))"
    by code_simp
  then have r: "startLinuxScreenKey xlib_sample True True [XI_KeyRelease 8] (init_state 80 24)
                  = Inl NullString"
    by (cases "startLinuxScreenKey xlib_sample True True [XI_KeyRelease 8] (init_state 80 24)")
       (simp_all, metis crash.exhaust)
  from p r show ?thesis ..
qed

subsection \<open>The key table\<close>

text \<open>
  C9 as stated fails: when \<^verbatim>\<open>XOpenDisplay\<close> returns no display,
  \<^verbatim>\<open>startLinuxScreenKey\<close> returns before it reaches \<^verbatim>\<open>initializeKeyMappings\<close>. The
  run returns, and the table has no entry for mouse code 1 nor for Page Up.
\<close>

theorem key_table_empty_without_display_counterexample:
  "\<not> isl (startLinuxScreenKey xlib_sample False True [XI_ButtonPress 1] (init_state 80 24)) \<and>
   specialKeyMap
     (projr (startLinuxScreenKey xlib_sample False True [XI_ButtonPress 1] (init_state 80 24))) 1
     = None \<and>
   specialKeyMap
     (projr (startLinuxScreenKey xlib_sample False True [XI_ButtonPress 1] (init_state 80 24)))
     (XK_Page_Up x11_keysyms)
     = None"
  by (simp add: startLinuxScreenKey_def init_state_def)

text \<open>
  C9, amended: \<^verbatim>\<open>initializeKeyMappings\<close> on the empty map gives a map whose keys are
  the four navigation keysyms and the mouse codes 1 to 5, every value is a non-empty
  name, and (the keysyms being distinct from each other and from 1 to 5) each key has
  the name the source assigns. When the display opens, \<^verbatim>\<open>startLinuxScreenKey\<close> runs the
  event loop on the state with that map, so the table is filled once before the first
  event, and a run that returns ends with that same map. When the display does not
  open, the run returns the state it was given: the table stays empty and no event is
  processed. No dispatched event changes the map.
\<close>

theorem key_table_filled_when_display_opens:
  "dom (initializeKeyMappings ks Map.empty)
     = {XK_Page_Up ks, XK_Page_Down ks, XK_Home ks, XK_End ks, 1, 2, 3, 4, 5} \<and>
   (\<forall>k v. initializeKeyMappings ks Map.empty k = Some v \<longrightarrow> v \<noteq> []) \<and>
   (distinct [XK_Page_Up ks, XK_Page_Down ks, XK_Home ks, XK_End ks, 1, 2, 3, 4, 5] \<longrightarrow>
      initializeKeyMappings ks Map.empty (XK_Page_Up ks) = Some ''PAGE UP'' \<and>
      initializeKeyMappings ks Map.empty (XK_Page_Down ks) = Some ''PAGE DOWN'' \<and>
      initializeKeyMappings ks Map.empty (XK_Home ks) = Some ''HOME'' \<and>
      initializeKeyMappings ks Map.empty (XK_End ks) = Some ''END'' \<and>
      initializeKeyMappings ks Map.empty 1 = Some ''MOUSE LEFT CLICK'' \<and>
      initializeKeyMappings ks Map.empty 2 = Some ''MOUSE MIDDLE CLICK'' \<and>
      initializeKeyMappings ks Map.empty 3 = Some ''MOUSE RIGHT CLICK'' \<and>
      initializeKeyMappings ks Map.empty 4 = Some ''MOUSE SCROLL UP'' \<and>
      initializeKeyMappings ks Map.empty 5 = Some ''MOUSE SCROLL DOWN'') \<and>
   startLinuxScreenKey x True True events (init_state w h)
     = eventLoop x events
         ((init_state w h)\<lparr>specialKeyMap := initializeKeyMappings (keysym_values x) Map.empty\<rparr>) \<and>
   startLinuxScreenKey x False ext_ok events (init_state w h) = Inr (init_state w h) \<and>
   (startLinuxScreenKey x display_ok ext_ok events (init_state w h) = Inr st1 \<longrightarrow>
      specialKeyMap st1
        = (if display_ok then initializeKeyMappings (keysym_values x) Map.empty
           else Map.empty)) \<and>
   (dispatch x e st = Inr st2 \<longrightarrow> specialKeyMap st2 = specialKeyMap st)"
proof -
  have a: "dom (initializeKeyMappings ks Map.empty)
     = {XK_Page_Up ks, XK_Page_Down ks, XK_Home ks, XK_End ks, 1, 2, 3, 4, 5}"
    by (simp add: initializeKeyMappings_dom)
  have b: "\<forall>k v. initializeKeyMappings ks Map.empty k = Some v \<longrightarrow> v \<noteq> []"
    using initializeKeyMappings_nonempty by blast
  have e0: "specialKeyMap (init_state w h) = Map.empty"
    by (simp add: init_state_def)
  have c: "startLinuxScreenKey x True True events (init_state w h)
     = eventLoop x events
         ((init_state w h)\<lparr>specialKeyMap := initializeKeyMappings (keysym_values x) Map.empty\<rparr>)"
    by (simp add: startLinuxScreenKey_def e0)
  have n: "startLinuxScreenKey x False ext_ok events (init_state w h) = Inr (init_state w h)"
    by (simp add: startLinuxScreenKey_def)
  have d: "specialKeyMap st1
             = (if display_ok then initializeKeyMappings (keysym_values x) Map.empty
                else Map.empty)"
    if r: "startLinuxScreenKey x display_ok ext_ok events (init_state w h) = Inr st1"
  proof (cases display_ok)
    case False
    with r n have "st1 = init_state w h"
      by simp
    with False e0 show ?thesis
      by simp
  next
    case True
    note disp = True
    show ?thesis
    proof (cases ext_ok)
      case True
      with r c disp have "eventLoop x events
           ((init_state w h)\<lparr>specialKeyMap := initializeKeyMappings (keysym_values x) Map.empty\<rparr>)
           = Inr st1"
        by simp
      from eventLoop_keeps_map [OF this] disp show ?thesis by simp
    next
      case False
      with r disp show ?thesis
        by (auto simp: startLinuxScreenKey_def e0)
    qed
  qed
  from a b c n d initializeKeyMappings_entries [of ks Map.empty] dispatch_keeps_map [of x e st st2]
  show ?thesis by blast
qed

theorem key_table_filled_when_display_opens_witness:
  "distinct [XK_Page_Up x11_keysyms, XK_Page_Down x11_keysyms, XK_Home x11_keysyms,
             XK_End x11_keysyms, 1, 2, 3, 4, 5] \<and>
   initializeKeyMappings x11_keysyms Map.empty (XK_Page_Up x11_keysyms) = Some ''PAGE UP'' \<and>
   \<not> isl (startLinuxScreenKey xlib_sample True True
            [XI_KeyPress 112, XI_ButtonPress 1, XI_KeyPress 38, XI_KeyRelease 112, XI_ButtonPress 9]
            (init_state 80 24)) \<and>
   specialKeyMap (projr (startLinuxScreenKey xlib_sample True True
            [XI_KeyPress 112, XI_ButtonPress 1, XI_KeyPress 38, XI_KeyRelease 112, XI_ButtonPress 9]
            (init_state 80 24)))
     = initializeKeyMappings x11_keysyms Map.empty \<and>
   specialKeyMap (projr (startLinuxScreenKey xlib_sample False True
            [XI_KeyPress 112, XI_ButtonPress 1, XI_KeyPress 38, XI_KeyRelease 112, XI_ButtonPress 9]
            (init_state 80 24)))
     = Map.empty"
proof -
  let ?evs = "[XI_KeyPress 112, XI_ButtonPress 1, XI_KeyPress 38, XI_KeyRelease 112,
               XI_ButtonPress 9]"
  let ?run = "startLinuxScreenKey xlib_sample True True ?evs (init_state 80 24)"
  let ?off = "startLinuxScreenKey xlib_sample False True ?evs (init_state 80 24)"
  have h: "distinct [XK_Page_Up x11_keysyms, XK_Page_Down x11_keysyms, XK_Home x11_keysyms,
             XK_End x11_keysyms, 1, 2, 3, 4, 5]"
    by (simp add: x11_keysyms_def)
  have ok: "\<not> isl ?run"
    by code_simp
  then have r: "?run = Inr (projr ?run)"
    by simp
  have v: "keysym_values xlib_sample = x11_keysyms"
    by (simp add: xlib_sample_def)
  note t = key_table_filled_when_display_opens [where ks = x11_keysyms and x = xlib_sample
      and events = ?evs and w = 80 and h = 24 and ext_ok = True and display_ok = True
      and ?st1.0 = "projr ?run"
      and e = XI_Other and st = "init_state 80 24" and ?st2.0 = "init_state 80 24"]
  note t' = key_table_filled_when_display_opens [where ks = x11_keysyms and x = xlib_sample
      and events = ?evs and w = 80 and h = 24 and ext_ok = True and display_ok = False
      and ?st1.0 = "projr ?off"
      and e = XI_Other and st = "init_state 80 24" and ?st2.0 = "init_state 80 24"]
  from t h have p: "initializeKeyMappings x11_keysyms Map.empty (XK_Page_Up x11_keysyms)
                      = Some ''PAGE UP''"
    by blast
  from t have "?run = Inr (projr ?run) \<longrightarrow>
      specialKeyMap (projr ?run)
        = (if True then initializeKeyMappings (keysym_values xlib_sample) Map.empty
           else Map.empty)"
    by blast
  from this r have "specialKeyMap (projr ?run)
        = (if True then initializeKeyMappings (keysym_values xlib_sample) Map.empty
           else Map.empty)"
    by (rule mp)
  then have m: "specialKeyMap (projr ?run)
                  = initializeKeyMappings (keysym_values xlib_sample) Map.empty"
    by (simp only: if_True)
  from t' have off: "?off = Inr (init_state 80 24)"
    by blast
  have m': "specialKeyMap (projr ?off) = Map.empty"
    unfolding off by (simp add: init_state_def)
  from h p ok m m' show ?thesis
    unfolding v by blast
qed

end
